theory Spec2Isabelle
  imports Main "HOL-Library.Word"
begin

unbundle bit_operations_syntax

section \<open>Endianness normalisation (the portable big-endian-to-host header)\<close>

text \<open>
  The header binds \<open>pyi_be16toh\<close>, \<open>pyi_be32toh\<close> and \<open>pyi_be64toh\<close> to one
  primitive per target, chosen by the preprocessor. A target is what the \<open>#if\<close> chain
  looks at: the platform macro, on Windows the value of \<open>BYTE_ORDER\<close> and the compiler
  macro. An \<open>#error\<close> directive stops the build, so a target that reaches one has no
  conversion at all: the model returns \<open>None\<close> there.
\<close>

datatype platform =
  Linux | Cygwin | Apple | OpenBSD | NetBSD | FreeBSD | DragonFly | Win32 | OtherPlatform

datatype compiler = MSVC | GNUC | Clang | OtherCompiler

datatype byte_order = LITTLE_ENDIAN | BIG_ENDIAN | PDP_ENDIAN

record target =
  platform :: platform
  compiler :: compiler
  byte_order :: byte_order

subsection \<open>The primitives of the platforms\<close>

text \<open>
  The primitives belong to the C library or the compiler of each platform, not to the
  launcher. They are written out here as their documentation gives them: an
  unconditional byte swap built from shifts and masks, and the big-endian-to-host
  conversions of the system headers, which swap on a little-endian host and are the
  identity otherwise.
\<close>

definition bswap16 :: "16 word \<Rightarrow> 16 word" where
  "bswap16 x = push_bit 8 x OR drop_bit 8 x"

definition bswap32 :: "32 word \<Rightarrow> 32 word" where
  "bswap32 x =
     push_bit 24 (x AND 0xff) OR push_bit 8 (x AND 0xff00) OR
     (drop_bit 8 x AND 0xff00) OR drop_bit 24 x"

definition bswap64 :: "64 word \<Rightarrow> 64 word" where
  "bswap64 x =
     push_bit 56 (x AND 0xff) OR push_bit 40 (x AND 0xff00) OR
     push_bit 24 (x AND 0xff0000) OR push_bit 8 (x AND 0xff000000) OR
     (drop_bit 8 x AND 0xff000000) OR (drop_bit 24 x AND 0xff0000) OR
     (drop_bit 40 x AND 0xff00) OR drop_bit 56 x"

text \<open>\<open>_byteswap_ushort\<close>, \<open>_byteswap_ulong\<close>, \<open>_byteswap_uint64\<close> (MSVC).\<close>

definition byteswap_ushort :: "16 word \<Rightarrow> 16 word" where
  "byteswap_ushort x = bswap16 x"

definition byteswap_ulong :: "32 word \<Rightarrow> 32 word" where
  "byteswap_ulong x = bswap32 x"

definition byteswap_uint64 :: "64 word \<Rightarrow> 64 word" where
  "byteswap_uint64 x = bswap64 x"

text \<open>\<open>__builtin_bswap16\<close>, \<open>__builtin_bswap32\<close>, \<open>__builtin_bswap64\<close> (GCC, clang).\<close>

definition builtin_bswap16 :: "16 word \<Rightarrow> 16 word" where
  "builtin_bswap16 x = bswap16 x"

definition builtin_bswap32 :: "32 word \<Rightarrow> 32 word" where
  "builtin_bswap32 x = bswap32 x"

definition builtin_bswap64 :: "64 word \<Rightarrow> 64 word" where
  "builtin_bswap64 x = bswap64 x"

text \<open>
  \<open>be16toh\<close>, \<open>be32toh\<close>, \<open>be64toh\<close> of \<open>endian.h\<close> and \<open>sys/endian.h\<close>; the
  \<open>betoh\<close> spellings of the BSDs and \<open>OSSwapBigToHostInt\<close> of macOS are the same
  functions under other names.
\<close>

definition be16toh :: "byte_order \<Rightarrow> 16 word \<Rightarrow> 16 word" where
  "be16toh host x = (if host = LITTLE_ENDIAN then bswap16 x else x)"

definition be32toh :: "byte_order \<Rightarrow> 32 word \<Rightarrow> 32 word" where
  "be32toh host x = (if host = LITTLE_ENDIAN then bswap32 x else x)"

definition be64toh :: "byte_order \<Rightarrow> 64 word \<Rightarrow> 64 word" where
  "be64toh host x = (if host = LITTLE_ENDIAN then bswap64 x else x)"

definition betoh16 :: "byte_order \<Rightarrow> 16 word \<Rightarrow> 16 word" where
  "betoh16 host x = be16toh host x"

definition betoh32 :: "byte_order \<Rightarrow> 32 word \<Rightarrow> 32 word" where
  "betoh32 host x = be32toh host x"

definition betoh64 :: "byte_order \<Rightarrow> 64 word \<Rightarrow> 64 word" where
  "betoh64 host x = be64toh host x"

definition OSSwapBigToHostInt16 :: "byte_order \<Rightarrow> 16 word \<Rightarrow> 16 word" where
  "OSSwapBigToHostInt16 host x = be16toh host x"

definition OSSwapBigToHostInt32 :: "byte_order \<Rightarrow> 32 word \<Rightarrow> 32 word" where
  "OSSwapBigToHostInt32 host x = be32toh host x"

definition OSSwapBigToHostInt64 :: "byte_order \<Rightarrow> 64 word \<Rightarrow> 64 word" where
  "OSSwapBigToHostInt64 host x = be64toh host x"

subsection \<open>The macros of the header\<close>

text \<open>
  One definition per macro, one case per branch of the \<open>#if\<close> chain, in the order of
  the header. \<open>None\<close> is a build stopped by \<open>#error\<close>.
\<close>

definition pyi_be16toh :: "target \<Rightarrow> 16 word \<Rightarrow> 16 word option" where
  "pyi_be16toh t x =
     (case platform t of
        Linux \<Rightarrow> Some (be16toh (byte_order t) x)
      | Cygwin \<Rightarrow> Some (be16toh (byte_order t) x)
      | Apple \<Rightarrow> Some (OSSwapBigToHostInt16 (byte_order t) x)
      | OpenBSD \<Rightarrow> Some (be16toh (byte_order t) x)
      | NetBSD \<Rightarrow> Some (betoh16 (byte_order t) x)
      | FreeBSD \<Rightarrow> Some (betoh16 (byte_order t) x)
      | DragonFly \<Rightarrow> Some (betoh16 (byte_order t) x)
      | Win32 \<Rightarrow>
          (case byte_order t of
             LITTLE_ENDIAN \<Rightarrow>
               (case compiler t of
                  MSVC \<Rightarrow> Some (byteswap_ushort x)
                | GNUC \<Rightarrow> Some (builtin_bswap16 x)
                | Clang \<Rightarrow> Some (builtin_bswap16 x)
                | OtherCompiler \<Rightarrow> None)
           | BIG_ENDIAN \<Rightarrow> Some x
           | PDP_ENDIAN \<Rightarrow> None)
      | OtherPlatform \<Rightarrow> None)"

definition pyi_be32toh :: "target \<Rightarrow> 32 word \<Rightarrow> 32 word option" where
  "pyi_be32toh t x =
     (case platform t of
        Linux \<Rightarrow> Some (be32toh (byte_order t) x)
      | Cygwin \<Rightarrow> Some (be32toh (byte_order t) x)
      | Apple \<Rightarrow> Some (OSSwapBigToHostInt32 (byte_order t) x)
      | OpenBSD \<Rightarrow> Some (be32toh (byte_order t) x)
      | NetBSD \<Rightarrow> Some (betoh32 (byte_order t) x)
      | FreeBSD \<Rightarrow> Some (betoh32 (byte_order t) x)
      | DragonFly \<Rightarrow> Some (betoh32 (byte_order t) x)
      | Win32 \<Rightarrow>
          (case byte_order t of
             LITTLE_ENDIAN \<Rightarrow>
               (case compiler t of
                  MSVC \<Rightarrow> Some (byteswap_ulong x)
                | GNUC \<Rightarrow> Some (builtin_bswap32 x)
                | Clang \<Rightarrow> Some (builtin_bswap32 x)
                | OtherCompiler \<Rightarrow> None)
           | BIG_ENDIAN \<Rightarrow> Some x
           | PDP_ENDIAN \<Rightarrow> None)
      | OtherPlatform \<Rightarrow> None)"

definition pyi_be64toh :: "target \<Rightarrow> 64 word \<Rightarrow> 64 word option" where
  "pyi_be64toh t x =
     (case platform t of
        Linux \<Rightarrow> Some (be64toh (byte_order t) x)
      | Cygwin \<Rightarrow> Some (be64toh (byte_order t) x)
      | Apple \<Rightarrow> Some (OSSwapBigToHostInt64 (byte_order t) x)
      | OpenBSD \<Rightarrow> Some (be64toh (byte_order t) x)
      | NetBSD \<Rightarrow> Some (betoh64 (byte_order t) x)
      | FreeBSD \<Rightarrow> Some (betoh64 (byte_order t) x)
      | DragonFly \<Rightarrow> Some (betoh64 (byte_order t) x)
      | Win32 \<Rightarrow>
          (case byte_order t of
             LITTLE_ENDIAN \<Rightarrow>
               (case compiler t of
                  MSVC \<Rightarrow> Some (byteswap_uint64 x)
                | GNUC \<Rightarrow> Some (builtin_bswap64 x)
                | Clang \<Rightarrow> Some (builtin_bswap64 x)
                | OtherCompiler \<Rightarrow> None)
           | BIG_ENDIAN \<Rightarrow> Some x
           | PDP_ENDIAN \<Rightarrow> None)
      | OtherPlatform \<Rightarrow> None)"

text \<open>
  The targets the header compiles for: every listed platform, and on Windows a
  little-endian \<open>BYTE_ORDER\<close> with one of the three known compilers, or a big-endian one.
\<close>

definition supported :: "target \<Rightarrow> bool" where
  "supported t =
     (case platform t of
        OtherPlatform \<Rightarrow> False
      | Win32 \<Rightarrow>
          (case byte_order t of
             LITTLE_ENDIAN \<Rightarrow> compiler t \<noteq> OtherCompiler
           | BIG_ENDIAN \<Rightarrow> True
           | PDP_ENDIAN \<Rightarrow> False)
      | _ \<Rightarrow> True)"

subsection \<open>Values as byte sequences\<close>

text \<open>
  The bytes of a value, least significant first, and the value of a byte sequence read
  the same way. \<open>byte_reversal n\<close> is the specification's reading of the conversion on a
  little-endian host: the \<open>n\<close> bytes of the value in the opposite order.
\<close>

definition le_bytes :: "nat \<Rightarrow> 'a::len word \<Rightarrow> 8 word list" where
  "le_bytes n x = map (\<lambda>i. ucast (drop_bit (8 * i) x)) [0..<n]"

fun of_le_bytes :: "8 word list \<Rightarrow> 'a::len word" where
  "of_le_bytes [] = 0"
| "of_le_bytes (b # bs) = ucast b OR push_bit 8 (of_le_bytes bs)"

definition byte_reversal :: "nat \<Rightarrow> 'a::len word \<Rightarrow> 'a word" where
  "byte_reversal n x = of_le_bytes (rev (le_bytes n x))"

text \<open>
  Reading an integer object from memory: the bytes are listed by increasing address; a
  little-endian host takes the first as the least significant, a big-endian host as the
  most significant. The wire sequence of a big-endian field is read this way before the
  conversion is applied to it.
\<close>

definition load_word :: "byte_order \<Rightarrow> 8 word list \<Rightarrow> 'a::len word" where
  "load_word host bs = (if host = LITTLE_ENDIAN then of_le_bytes bs else of_le_bytes (rev bs))"

section \<open>Diagnostic emission (pyi_global.c)\<close>

subsection \<open>Characters, C strings and fixed arrays\<close>

text \<open>Text length of \<open>MessageBox()\<close>, and the size of the two buffers of the stderr path.\<close>

definition MBTXTLEN :: nat where
  "MBTXTLEN = 1024"

definition VPRINTF_TO_STDERR_BUFSIZE :: nat where
  "VPRINTF_TO_STDERR_BUFSIZE = MBTXTLEN * 2"

abbreviation NUL :: char where
  "NUL \<equiv> CHR 0x00"

type_synonym wchar = "16 word"

text \<open>
  A pointer to characters is modelled by the characters stored from its address on. The
  C string it denotes stops before the first terminator; \<open>strlen\<close> is its length.
\<close>

definition cstr :: "char list \<Rightarrow> string" where
  "cstr m = takeWhile (\<lambda>c. c \<noteq> NUL) m"

definition wcstr :: "wchar list \<Rightarrow> wchar list" where
  "wcstr m = takeWhile (\<lambda>c. c \<noteq> 0) m"

definition strlen :: "char list \<Rightarrow> nat" where
  "strlen m = length (cstr m)"

text \<open>
  A character array on the stack. \<open>cells\<close> are its elements. C performs a store through
  a pointer past the end of the array all the same, into whatever lies behind it; such
  stores are kept, in order, in \<open>overrun\<close> with their offset from the start of the array.
\<close>

record buffer =
  cells :: "char list"
  overrun :: "(nat \<times> char) list"

text \<open>
  A fresh automatic array of \<open>n\<close> characters. Its contents are indeterminate: they are
  the given \<open>junk\<close>, cut or padded to the \<open>n\<close> elements the array has.
\<close>

definition local_array :: "nat \<Rightarrow> char list \<Rightarrow> buffer" where
  "local_array n junk = \<lparr>cells = take n (junk @ replicate n NUL), overrun = []\<rparr>"

definition store :: "nat \<Rightarrow> char \<Rightarrow> buffer \<Rightarrow> buffer" where
  "store i c b =
     (if i < length (cells b) then b\<lparr>cells := (cells b)[i := c]\<rparr>
      else b\<lparr>overrun := overrun b @ [(i, c)]\<rparr>)"

fun store_list :: "nat \<Rightarrow> char list \<Rightarrow> buffer \<Rightarrow> buffer" where
  "store_list i [] b = b"
| "store_list i (c # cs) b = store_list (Suc i) cs (store i c b)"

subsection \<open>The C library functions the file calls\<close>

text \<open>
  The format string and the variable arguments enter the model as \<open>rendered\<close>, the full
  text they expand to; formatting itself is the C library's.

  \<open>sprintf(msg + dst, ...)\<close> stores the whole rendering and the terminator and returns
  the length of the rendering. \<open>strncpy(msg + dst, src, n)\<close> stores exactly \<open>n\<close>
  characters: those of the C string \<open>src\<close>, cut at \<open>n\<close>, padded with terminators when
  the string is shorter (none is added when it is not).
\<close>

text \<open>
  Modelled from the spec: \<open>vsnprintf\<close> is not defined in the sources at hand; it is the
  C library's, under whatever name the launcher's global header (absent here) binds for
  the compiler. The spec has a rendering beyond the capacity cut silently, the buffer
  always terminated and never written past its bound, which is the function of C99:
  \<open>vsnprintf(msg + dst, n, fmt, args)\<close> stores at most \<open>n - 1\<close> characters of the
  rendering, then a terminator, and nothing when \<open>n\<close> is 0; its result is the length of
  the full rendering. A failed rendering (a negative result) is not modelled.

  Sizes are natural numbers: \<open>size\<close> is a \<open>size_t\<close> holding sums of lengths of strings
  in memory, which stay below its modulus.
\<close>

definition vsnprintf :: "nat \<Rightarrow> nat \<Rightarrow> string \<Rightarrow> buffer \<Rightarrow> buffer \<times> nat" where
  "vsnprintf dst n rendered b =
     (if n = 0 then b else store_list dst (take (n - 1) rendered @ [NUL]) b, length rendered)"

definition sprintf :: "nat \<Rightarrow> string \<Rightarrow> buffer \<Rightarrow> buffer \<times> nat" where
  "sprintf dst rendered b = (store_list dst (rendered @ [NUL]) b, length rendered)"

definition strncpy :: "nat \<Rightarrow> char list \<Rightarrow> nat \<Rightarrow> buffer \<Rightarrow> buffer" where
  "strncpy dst src n b =
     store_list dst (take n (cstr src) @ replicate (n - strlen src) NUL) b"

text \<open>The conversion \<open>%d\<close> of an \<open>int\<close>, and the rendering of \<open>"[%d] "\<close>.\<close>

definition digit :: "nat \<Rightarrow> char" where
  "digit d = ''0123456789'' ! (d mod 10)"

function dec_nat :: "nat \<Rightarrow> string" where
  "dec_nat n = (if n < 10 then [digit n] else dec_nat (n div 10) @ [digit (n mod 10)])"
  by pat_completeness auto
termination
  by (relation "measure (\<lambda>n. n)") auto

declare dec_nat.simps [simp del]

definition dec_int :: "int \<Rightarrow> string" where
  "dec_int i = (if i < 0 then CHR ''-'' # dec_nat (nat (- i)) else dec_nat (nat i))"

definition fmt_pid :: "32 word \<Rightarrow> string" where
  "fmt_pid pid = ''['' @ dec_int (sint pid) @ ''] ''"

subsection \<open>What the functions read and what they write\<close>

text \<open>
  The outcome of a text conversion into a destination array: whether the helper
  returned its destination (\<open>True\<close>) or \<open>NULL\<close> (\<open>False\<close>), and the contents of the
  destination afterwards. A conversion takes the destination's contents before the call,
  the source string and the capacity it is given.
\<close>

type_synonym 'c conversion = "'c list \<Rightarrow> char list \<Rightarrow> nat \<Rightarrow> bool \<times> 'c list"

text \<open>
  The environment of a call. The two conversion helpers of the Windows utility module
  and the error-description helper are not among the sources at hand; they are
  parameters here, and so is everything the functions read from the operating system and
  the indeterminate contents of their uninitialised arrays.
\<close>

record env =
  from_utf8 :: "wchar conversion"
  utf8_to_mbs :: "char conversion"
  GetWinErrorString :: "32 word \<Rightarrow> char list"
  strerror :: "int \<Rightarrow> char list"
  GetLastError :: "32 word"
  errno :: int
  getpid :: "32 word"
  msg_junk :: "char list"
  wmsg_junk :: "wchar list"
  utf8_junk :: "char list"
  mbcs_junk :: "char list"

text \<open>The build configuration: the macros the \<open>#if\<close> lines of the file test.\<close>

record build =
  win32 :: bool
  apple :: bool
  windowed :: bool
  launch_debug :: bool

text \<open>
  A dialog request: the call made (wide or byte-string), the text and the caption as the
  call reads them, and the type flags. The flag values are those of the Windows headers.
\<close>

datatype dialog =
  MessageBoxW "wchar list" "wchar list" "32 word"
| MessageBoxA "char list" "char list" "32 word"

definition MB_OK :: "32 word" where
  "MB_OK = 0x00"

definition MB_ICONEXCLAMATION :: "32 word" where
  "MB_ICONEXCLAMATION = 0x30"


text \<open>
  The sinks: the standard error stream, the dialogs shown, the strings handed to the
  debugger, and the system log. Every function of the file returns \<open>void\<close>; what it does
  is the change it makes to the sinks.
\<close>

record sinks =
  stderr :: string
  boxes :: "dialog list"
  debugger :: "string list"
  syslog :: "string list"



subsection \<open>Dialogs (Windows, windowed builds)\<close>

definition show_message_box :: "env \<Rightarrow> char list \<Rightarrow> char list \<Rightarrow> 32 word \<Rightarrow> sinks \<Rightarrow> sinks" where
  "show_message_box E msg caption uType w =
     (let wmsg = take MBTXTLEN (wmsg_junk E @ replicate MBTXTLEN 0);
          wcaption = replicate MBTXTLEN 0;
          (converted, wmsg) = from_utf8 E wmsg msg MBTXTLEN
      in if converted then
           (let (_, wcaption) = from_utf8 E wcaption caption MBTXTLEN
            in w\<lparr>boxes := boxes w @ [MessageBoxW (wcstr wmsg) (wcstr wcaption) (MB_OK OR uType)]\<rparr>)
         else
           w\<lparr>boxes := boxes w @ [MessageBoxA (cstr msg) (cstr caption) (MB_OK OR uType)]\<rparr>)"

text \<open>
  Each emission is split in two: the contents of the array \<open>msg\<close> at the moment the
  dialog is requested, and the request itself.
\<close>

definition mbfatalerror_msg :: "env \<Rightarrow> string \<Rightarrow> buffer" where
  "mbfatalerror_msg E rendered =
     (let msg = local_array MBTXTLEN (msg_junk E);
          (msg, _) = vsnprintf 0 MBTXTLEN rendered msg
      in msg)"

definition mbfatalerror :: "env \<Rightarrow> string \<Rightarrow> sinks \<Rightarrow> sinks" where
  "mbfatalerror E rendered w =
     show_message_box E (cells (mbfatalerror_msg E rendered))
       ''Fatal error detected'' MB_ICONEXCLAMATION w"

definition mbothererror_msg :: "env \<Rightarrow> string \<Rightarrow> buffer" where
  "mbothererror_msg E rendered =
     (let msg = local_array MBTXTLEN (msg_junk E);
          (msg, _) = vsnprintf 0 MBTXTLEN rendered msg
      in msg)"


definition mbfatal_winerror_msg :: "env \<Rightarrow> char list \<Rightarrow> string \<Rightarrow> buffer" where
  "mbfatal_winerror_msg E funcname rendered =
     (let msg = local_array MBTXTLEN (msg_junk E);
          error_code = GetLastError E;
          (msg, size) = vsnprintf 0 MBTXTLEN rendered msg;
          (msg, size) =
            (if size < MBTXTLEN
             then (strncpy size funcname (MBTXTLEN - size - 1) msg, size + strlen funcname)
             else (msg, size));
          (msg, size) =
            (if size < MBTXTLEN
             then (strncpy size '': '' 2 msg, size + 2)
             else (msg, size));
          msg =
            (if size < MBTXTLEN
             then strncpy size (GetWinErrorString E error_code) (MBTXTLEN - size - 1) msg
             else msg)
      in store (MBTXTLEN - 1) NUL msg)"

definition mbfatal_winerror :: "env \<Rightarrow> char list \<Rightarrow> string \<Rightarrow> sinks \<Rightarrow> sinks" where
  "mbfatal_winerror E funcname rendered w =
     show_message_box E (cells (mbfatal_winerror_msg E funcname rendered))
       ''Fatal error detected'' MB_ICONEXCLAMATION w"

definition mbfatal_perror_msg :: "env \<Rightarrow> char list \<Rightarrow> string \<Rightarrow> buffer" where
  "mbfatal_perror_msg E funcname rendered =
     (let msg = local_array MBTXTLEN (msg_junk E);
          (msg, size) = vsnprintf 0 MBTXTLEN rendered msg;
          (msg, size) =
            (if size < MBTXTLEN
             then (strncpy size funcname (MBTXTLEN - size - 1) msg, size + strlen funcname)
             else (msg, size));
          (msg, size) =
            (if size < MBTXTLEN
             then (strncpy size '': '' 2 msg, size + 2)
             else (msg, size));
          msg =
            (if size < MBTXTLEN
             then strncpy size (strerror E (errno E)) (MBTXTLEN - size - 1) msg
             else msg)
      in store (MBTXTLEN - 1) NUL msg)"

definition mbfatal_perror :: "env \<Rightarrow> char list \<Rightarrow> string \<Rightarrow> sinks \<Rightarrow> sinks" where
  "mbfatal_perror E funcname rendered w =
     show_message_box E (cells (mbfatal_perror_msg E funcname rendered))
       ''Fatal error detected'' MB_ICONEXCLAMATION w"

subsection \<open>Debug output (Windows, windowed debug builds)\<close>

definition mbvs_msg :: "env \<Rightarrow> string \<Rightarrow> buffer" where
  "mbvs_msg E rendered =
     (let msg = local_array MBTXTLEN (msg_junk E);
          (msg, pid_len) = sprintf 0 (fmt_pid (getpid E)) msg;
          (msg, _) = vsnprintf pid_len (MBTXTLEN - pid_len) rendered msg
      in msg)"

definition mbvs :: "env \<Rightarrow> string \<Rightarrow> sinks \<Rightarrow> sinks" where
  "mbvs E rendered w = w\<lparr>debugger := debugger w @ [cstr (cells (mbvs_msg E rendered))]\<rparr>"

subsection \<open>The standard error stream\<close>

text \<open>
  \<open>vprintf_utf8_buffer\<close> is the array \<open>utf8_buffer\<close> of \<open>vprintf_to_stderr\<close> after the
  rendering step of its Windows branch.
\<close>

definition vprintf_utf8_buffer :: "env \<Rightarrow> string \<Rightarrow> buffer" where
  "vprintf_utf8_buffer E rendered =
     fst (vsnprintf 0 VPRINTF_TO_STDERR_BUFSIZE rendered
            (local_array VPRINTF_TO_STDERR_BUFSIZE (utf8_junk E)))"

definition vprintf_to_stderr :: "build \<Rightarrow> env \<Rightarrow> string \<Rightarrow> sinks \<Rightarrow> sinks" where
  "vprintf_to_stderr cfg E rendered w =
     (if win32 cfg then
        (let utf8_buffer = cells (vprintf_utf8_buffer E rendered);
             mbcs_buffer = cells (local_array VPRINTF_TO_STDERR_BUFSIZE (mbcs_junk E));
             (converted, mbcs_buffer) = utf8_to_mbs E mbcs_buffer utf8_buffer VPRINTF_TO_STDERR_BUFSIZE
         in if converted then w\<lparr>stderr := stderr w @ cstr mbcs_buffer\<rparr>
            else w\<lparr>stderr := stderr w @ cstr utf8_buffer\<rparr>)
      else w\<lparr>stderr := stderr w @ rendered\<rparr>)"

definition printf_to_stderr :: "build \<Rightarrow> env \<Rightarrow> string \<Rightarrow> sinks \<Rightarrow> sinks" where
  "printf_to_stderr cfg E rendered w = vprintf_to_stderr cfg E rendered w"

definition pyi_global_printf :: "build \<Rightarrow> env \<Rightarrow> string \<Rightarrow> sinks \<Rightarrow> sinks" where
  "pyi_global_printf cfg E rendered w =
     (let w = w\<lparr>stderr := stderr w @ fmt_pid (getpid E)\<rparr>;
          w = vprintf_to_stderr cfg E rendered w
      in if apple cfg \<and> windowed cfg \<and> launch_debug cfg
         then w\<lparr>syslog := syslog w @ [rendered]\<rparr>
         else w)"

subsection \<open>The common body of the two error-annotated emissions\<close>

text \<open>
  \<open>mbfatal_winerror\<close> and \<open>mbfatal_perror\<close> run the same statements on \<open>msg\<close> and
  differ only in where the error description comes from. \<open>compose_msg\<close> is that body
  with the description as an argument; the proofs go through it.
\<close>

definition compose_msg :: "char list \<Rightarrow> char list \<Rightarrow> string \<Rightarrow> char list \<Rightarrow> buffer" where
  "compose_msg junk funcname rendered description =
     (let msg = local_array MBTXTLEN junk;
          (msg, size) = vsnprintf 0 MBTXTLEN rendered msg;
          (msg, size) =
            (if size < MBTXTLEN
             then (strncpy size funcname (MBTXTLEN - size - 1) msg, size + strlen funcname)
             else (msg, size));
          (msg, size) =
            (if size < MBTXTLEN
             then (strncpy size '': '' 2 msg, size + 2)
             else (msg, size));
          msg =
            (if size < MBTXTLEN
             then strncpy size description (MBTXTLEN - size - 1) msg
             else msg)
      in store (MBTXTLEN - 1) NUL msg)"

subsection \<open>A concrete environment\<close>

text \<open>
  Two conversions and an environment to run the functions on: \<open>failing\<close> returns \<open>NULL\<close>
  and leaves its destination as it was; \<open>widening\<close> succeeds when the string and its
  terminator fit the capacity, storing each character as one wide character.
\<close>

definition failing :: "'c conversion" where
  "failing dst src n = (False, dst)"

definition widening :: "wchar conversion" where
  "widening dst src n =
     (if strlen src < n
      then (True, map (\<lambda>c. of_nat (of_char c)) (cstr src) @ 0 # drop (Suc (strlen src)) dst)
      else (False, dst))"

definition sample_env :: env where
  "sample_env =
     \<lparr>from_utf8 = failing, utf8_to_mbs = failing,
      GetWinErrorString = (\<lambda>code. ''Access is denied.''),
      strerror = (\<lambda>code. ''No such file or directory''),
      GetLastError = 5, errno = 2, getpid = 4242,
      msg_junk = ''junk'', wmsg_junk = [], utf8_junk = [], mbcs_junk = []\<rparr>"

definition no_output :: sinks where
  "no_output = \<lparr>stderr = [], boxes = [], debugger = [], syslog = []\<rparr>"

section \<open>Properties of the endianness layer\<close>

lemma upt_2: "[0..<2] = [0, 1]"
  by (simp add: upt_rec)

lemma upt_4: "[0..<4] = [0, 1, 2, 3]"
  by (simp add: upt_rec)

lemma mask_ff: "(0xff :: 'a::len word) = mask 8"
  by (simp add: mask_eq_exp_minus_1)

lemma mask_ff00: "(0xff00 :: 'a::len word) = push_bit 8 (mask 8)"
  by (simp add: mask_eq_exp_minus_1 push_bit_eq_mult)

lemma mask_ff0000: "(0xff0000 :: 'a::len word) = push_bit 16 (mask 8)"
  by (simp add: mask_eq_exp_minus_1 push_bit_eq_mult)

lemma mask_ff000000: "(0xff000000 :: 'a::len word) = push_bit 24 (mask 8)"
  by (simp add: mask_eq_exp_minus_1 push_bit_eq_mult)

lemma bit_of_le_bytes:
  "bit (of_le_bytes bs :: 'a::len word) n \<longleftrightarrow>
     n < LENGTH('a) \<and> n div 8 < length bs \<and> bit (bs ! (n div 8)) (n mod 8)"
proof (induction bs arbitrary: n)
  case Nil
  show ?case by simp
next
  case (Cons b bs)
  show ?case
  proof (cases "n < 8")
    case True
    then show ?thesis by (auto simp: bit_simps dest: bit_imp_le_length)
  next
    case False
    then have d: "n div 8 = Suc ((n - 8) div 8)" and m: "n mod 8 = (n - 8) mod 8"
      by (simp_all add: le_div_geq le_mod_geq)
    have nb: "\<not> bit b n" using False bit_imp_le_length [of b n] by auto
    show ?thesis using False nb
      by (auto simp: bit_simps Cons.IH d m)
  qed
qed

lemma bit_le_bytes_nth:
  "i < k \<Longrightarrow> bit (le_bytes k x ! i) m \<longleftrightarrow> m < 8 \<and> bit x (8 * i + m)"
  by (auto simp: le_bytes_def bit_simps dest: bit_imp_le_length)

lemma length_le_bytes: "length (le_bytes k x) = k"
  by (simp add: le_bytes_def)

lemma bit_byte_reversal:
  "bit (byte_reversal k x :: 'a::len word) n \<longleftrightarrow>
     n < LENGTH('a) \<and> n div 8 < k \<and> bit x (8 * (k - 1 - n div 8) + n mod 8)"
  by (auto simp: byte_reversal_def bit_of_le_bytes length_le_bytes rev_nth bit_le_bytes_nth)

lemma bswap16_reversal: "bswap16 x = byte_reversal 2 x"
  unfolding bswap16_def byte_reversal_def le_bytes_def upt_2
  by (rule bit_word_eqI) (auto simp: bit_simps dest: bit_imp_le_length)

lemma bswap32_reversal: "bswap32 x = byte_reversal 4 x"
  unfolding bswap32_def byte_reversal_def le_bytes_def upt_4 mask_ff mask_ff00
  by (rule bit_word_eqI) (auto simp: bit_simps dest: bit_imp_le_length)

lemma bit_bswap64:
  assumes q: "q < 8" and r: "r < 8"
  shows "bit (bswap64 x) (8 * q + r) \<longleftrightarrow> bit x (8 * (7 - q) + r)"
proof -
  have hi: "\<And>k. 64 \<le> k \<Longrightarrow> \<not> bit x k"
    using bit_imp_le_length [of x] by fastforce
  note unf = bswap64_def mask_ff mask_ff00 mask_ff0000 mask_ff000000
  from q consider "q = 0" | "q = 1" | "q = 2" | "q = 3" | "q = 4" | "q = 5" | "q = 6" | "q = 7"
    by linarith
  then show ?thesis
  proof cases
    case 1 then show ?thesis using r unfolding unf by (simp add: bit_simps hi)
  next
    case 2 then show ?thesis using r unfolding unf by (simp add: bit_simps hi)
  next
    case 3 then show ?thesis using r unfolding unf by (simp add: bit_simps hi)
  next
    case 4 then show ?thesis using r unfolding unf by (simp add: bit_simps hi)
  next
    case 5 then show ?thesis using r unfolding unf by (simp add: bit_simps hi)
  next
    case 6 then show ?thesis using r unfolding unf by (simp add: bit_simps hi)
  next
    case 7 then show ?thesis using r unfolding unf by (simp add: bit_simps hi)
  next
    case 8 then show ?thesis using r unfolding unf by (simp add: bit_simps hi)
  qed
qed

lemma bswap64_reversal: "bswap64 x = byte_reversal 8 x"
proof (rule bit_word_eqI)
  fix n assume "n < LENGTH(64)"
  then have n: "n < 64" by simp
  then have q: "n div 8 < 8" and r: "n mod 8 < 8" by simp_all
  have "bit (bswap64 x) (8 * (n div 8) + n mod 8) \<longleftrightarrow> bit x (8 * (7 - n div 8) + n mod 8)"
    by (rule bit_bswap64 [OF q r])
  then show "bit (bswap64 x) n \<longleftrightarrow> bit (byte_reversal 8 x :: 64 word) n"
    using n q by (simp add: bit_byte_reversal)
qed

lemmas primitive_defs =
  be16toh_def be32toh_def be64toh_def betoh16_def betoh32_def betoh64_def
  OSSwapBigToHostInt16_def OSSwapBigToHostInt32_def OSSwapBigToHostInt64_def
  byteswap_ushort_def byteswap_ulong_def byteswap_uint64_def
  builtin_bswap16_def builtin_bswap32_def builtin_bswap64_def

lemma pyi_be16toh_little:
  "supported t \<Longrightarrow> byte_order t = LITTLE_ENDIAN \<Longrightarrow> pyi_be16toh t x = Some (bswap16 x)"
  by (simp add: supported_def pyi_be16toh_def primitive_defs
      split: platform.splits compiler.splits)

lemma pyi_be32toh_little:
  "supported t \<Longrightarrow> byte_order t = LITTLE_ENDIAN \<Longrightarrow> pyi_be32toh t x = Some (bswap32 x)"
  by (simp add: supported_def pyi_be32toh_def primitive_defs
      split: platform.splits compiler.splits)

lemma pyi_be64toh_little:
  "supported t \<Longrightarrow> byte_order t = LITTLE_ENDIAN \<Longrightarrow> pyi_be64toh t x = Some (bswap64 x)"
  by (simp add: supported_def pyi_be64toh_def primitive_defs
      split: platform.splits compiler.splits)

lemma pyi_be16toh_big:
  "supported t \<Longrightarrow> byte_order t = BIG_ENDIAN \<Longrightarrow> pyi_be16toh t x = Some x"
  by (simp add: supported_def pyi_be16toh_def primitive_defs split: platform.splits)

lemma pyi_be32toh_big:
  "supported t \<Longrightarrow> byte_order t = BIG_ENDIAN \<Longrightarrow> pyi_be32toh t x = Some x"
  by (simp add: supported_def pyi_be32toh_def primitive_defs split: platform.splits)

lemma pyi_be64toh_big:
  "supported t \<Longrightarrow> byte_order t = BIG_ENDIAN \<Longrightarrow> pyi_be64toh t x = Some x"
  by (simp add: supported_def pyi_be64toh_def primitive_defs split: platform.splits)

text \<open>
  Claim C3. On every supported target the three conversions return a value (there is no
  error result); on a little-endian host that value is the input with its 2, 4 or 8
  bytes in the opposite order, and on a big-endian host it is the input itself.
\<close>

theorem be_to_host_reverses_or_keeps:
  assumes "supported t"
  shows "(byte_order t = LITTLE_ENDIAN \<longrightarrow>
            pyi_be16toh t x16 = Some (byte_reversal 2 x16) \<and>
            pyi_be32toh t x32 = Some (byte_reversal 4 x32) \<and>
            pyi_be64toh t x64 = Some (byte_reversal 8 x64)) \<and>
         (byte_order t = BIG_ENDIAN \<longrightarrow>
            pyi_be16toh t x16 = Some x16 \<and>
            pyi_be32toh t x32 = Some x32 \<and>
            pyi_be64toh t x64 = Some x64)"
  using assms
  by (simp add: pyi_be16toh_little pyi_be32toh_little pyi_be64toh_little
      pyi_be16toh_big pyi_be32toh_big pyi_be64toh_big
      bswap16_reversal [symmetric] bswap32_reversal [symmetric] bswap64_reversal [symmetric])

theorem be_to_host_reverses_or_keeps_witness:
  "pyi_be16toh \<lparr>platform = Win32, compiler = MSVC, byte_order = LITTLE_ENDIAN\<rparr> 0x1234 = Some 0x3412 \<and>
   pyi_be32toh \<lparr>platform = Win32, compiler = MSVC, byte_order = LITTLE_ENDIAN\<rparr> 0x11223344 = Some 0x44332211 \<and>
   pyi_be64toh \<lparr>platform = Win32, compiler = MSVC, byte_order = LITTLE_ENDIAN\<rparr> 0x1122334455667788
     = Some 0x8877665544332211 \<and>
   pyi_be16toh \<lparr>platform = Linux, compiler = GNUC, byte_order = BIG_ENDIAN\<rparr> 0x1234 = Some 0x1234 \<and>
   pyi_be32toh \<lparr>platform = Linux, compiler = GNUC, byte_order = BIG_ENDIAN\<rparr> 0x11223344 = Some 0x11223344 \<and>
   pyi_be64toh \<lparr>platform = Linux, compiler = GNUC, byte_order = BIG_ENDIAN\<rparr> 0x1122334455667788
     = Some 0x1122334455667788"
proof -
  have s1: "supported \<lparr>platform = Win32, compiler = MSVC, byte_order = LITTLE_ENDIAN\<rparr>"
    by (simp add: supported_def)
  have s2: "supported \<lparr>platform = Linux, compiler = GNUC, byte_order = BIG_ENDIAN\<rparr>"
    by (simp add: supported_def)
  have r16: "byte_reversal 2 (0x1234 :: 16 word) = 0x3412"
    by (simp add: byte_reversal_def le_bytes_def upt_2)
  have r32: "byte_reversal 4 (0x11223344 :: 32 word) = 0x44332211"
    by (simp add: byte_reversal_def le_bytes_def upt_4)
  have r64: "byte_reversal 8 (0x1122334455667788 :: 64 word) = 0x8877665544332211"
    by (simp add: byte_reversal_def le_bytes_def upt_rec)
  show ?thesis
    using be_to_host_reverses_or_keeps [OF s1, of "0x1234" "0x11223344" "0x1122334455667788"]
      be_to_host_reverses_or_keeps [OF s2, of "0x1234" "0x11223344" "0x1122334455667788"]
    by (simp add: r16 r32 r64)
qed

text \<open>
  Claim C4. The wire sequence \<open>00 00 01 00\<close>, read from memory as a 32-bit integer and
  converted, is 256, and so is the wire sequence \<open>01 00\<close> read as a 16-bit integer and
  converted: on every supported target whose host order is little-endian or big-endian.
\<close>

theorem wire_256:
  assumes "supported t" and "byte_order t = LITTLE_ENDIAN \<or> byte_order t = BIG_ENDIAN"
  shows "pyi_be32toh t (load_word (byte_order t) [0x00, 0x00, 0x01, 0x00]) = Some 256 \<and>
         pyi_be16toh t (load_word (byte_order t) [0x01, 0x00]) = Some 256"
proof -
  have l32: "bswap32 (load_word LITTLE_ENDIAN [0x00, 0x00, 0x01, 0x00]) = 256"
    by (simp add: load_word_def bswap32_def)
  have l16: "bswap16 (load_word LITTLE_ENDIAN [0x01, 0x00]) = 256"
    by (simp add: load_word_def bswap16_def)
  have b32: "load_word BIG_ENDIAN [0x00, 0x00, 0x01, 0x00] = (256 :: 32 word)"
    by (simp add: load_word_def)
  have b16: "load_word BIG_ENDIAN [0x01, 0x00] = (256 :: 16 word)"
    by (simp add: load_word_def)
  from assms(2) show ?thesis
  proof
    assume le: "byte_order t = LITTLE_ENDIAN"
    show ?thesis
      using pyi_be32toh_little [OF assms(1) le] pyi_be16toh_little [OF assms(1) le]
      by (simp add: le l32 l16)
  next
    assume be: "byte_order t = BIG_ENDIAN"
    show ?thesis
      using pyi_be32toh_big [OF assms(1) be] pyi_be16toh_big [OF assms(1) be]
      by (simp add: be b32 b16)
  qed
qed

theorem wire_256_witness:
  "pyi_be32toh \<lparr>platform = Linux, compiler = GNUC, byte_order = LITTLE_ENDIAN\<rparr>
     (load_word LITTLE_ENDIAN [0x00, 0x00, 0x01, 0x00]) = Some 256 \<and>
   pyi_be16toh \<lparr>platform = Linux, compiler = GNUC, byte_order = LITTLE_ENDIAN\<rparr>
     (load_word LITTLE_ENDIAN [0x01, 0x00]) = Some 256"
  using wire_256 [of "\<lparr>platform = Linux, compiler = GNUC, byte_order = LITTLE_ENDIAN\<rparr>"]
  by (simp add: supported_def)

section \<open>Properties of the diagnostic layer\<close>

subsection \<open>Stores into a fixed array\<close>

lemma length_cells_store [simp]: "length (cells (store i c b)) = length (cells b)"
  by (simp add: store_def)

lemma length_cells_store_list [simp]: "length (cells (store_list i xs b)) = length (cells b)"
  by (induction xs arbitrary: i b) simp_all

lemma nth_cells_store:
  "j < length (cells b) \<Longrightarrow> cells (store i c b) ! j = (if j = i then c else cells b ! j)"
  by (simp add: store_def nth_list_update)

lemma nth_cells_store_list:
  "j < length (cells b) \<Longrightarrow>
   cells (store_list i xs b) ! j = (if i \<le> j \<and> j < i + length xs then xs ! (j - i) else cells b ! j)"
proof (induction xs arbitrary: i b)
  case Nil
  show ?case by auto
next
  case (Cons c cs)
  have "cells (store_list (Suc i) cs (store i c b)) ! j =
        (if Suc i \<le> j \<and> j < Suc i + length cs then cs ! (j - Suc i) else cells (store i c b) ! j)"
    using Cons.prems by (intro Cons.IH) simp
  then show ?case using Cons.prems
    by (auto simp: nth_cells_store nth_Cons' Suc_diff_le)
qed

lemma overrun_store_list_fits:
  "i + length xs \<le> length (cells b) \<Longrightarrow> overrun (store_list i xs b) = overrun b"
  by (induction xs arbitrary: i b) (simp_all add: store_def)

lemma length_cells_local_array [simp]: "length (cells (local_array n junk)) = n"
  by (simp add: local_array_def)

lemma overrun_local_array [simp]: "overrun (local_array n junk) = []"
  by (simp add: local_array_def)

lemma length_cells_vsnprintf [simp]: "length (cells (fst (vsnprintf dst n r b))) = length (cells b)"
  by (simp add: vsnprintf_def)

lemma length_cells_strncpy [simp]: "length (cells (strncpy dst src n b)) = length (cells b)"
  by (simp add: strncpy_def)

lemma strlen_le: "strlen s \<le> length s"
  by (simp add: strlen_def cstr_def length_takeWhile_le)

lemma nth_cells_strncpy:
  "j < length (cells b) \<Longrightarrow>
   cells (strncpy dst src n b) ! j =
     (if dst \<le> j \<and> j < dst + n then (if j - dst < strlen src then cstr src ! (j - dst) else NUL)
      else cells b ! j)"
  by (auto simp: strncpy_def nth_cells_store_list nth_append strlen_def)

lemma nth_cells_vsnprintf:
  "j < length (cells b) \<Longrightarrow> 0 < n \<Longrightarrow>
   cells (fst (vsnprintf dst n r b)) ! j =
     (if dst \<le> j \<and> j < dst + min (n - 1) (length r) then r ! (j - dst)
      else if j = dst + min (n - 1) (length r) then NUL
      else cells b ! j)"
  by (auto simp: vsnprintf_def nth_cells_store_list nth_append min_def)

lemma overrun_vsnprintf_fits:
  "dst + n \<le> length (cells b) \<Longrightarrow> overrun (fst (vsnprintf dst n r b)) = overrun b"
  by (simp add: vsnprintf_def overrun_store_list_fits)

lemma overrun_strncpy_fits:
  "dst + n \<le> length (cells b) \<Longrightarrow> overrun (strncpy dst src n b) = overrun b"
  by (simp add: strncpy_def overrun_store_list_fits strlen_def)

subsection \<open>The composed message\<close>

lemma cstr_sep [simp]: "cstr '': '' = '': ''"
  by (simp add: cstr_def)

lemma strlen_sep [simp]: "strlen '': '' = 2"
  by (simp add: strlen_def)

lemma compose_msg_unfold:
  "compose_msg junk f r d =
    (let b0 = fst (vsnprintf 0 MBTXTLEN r (local_array MBTXTLEN junk)); n0 = length r in
     if MBTXTLEN \<le> n0 then store (MBTXTLEN - 1) NUL b0
     else let b1 = strncpy n0 f (MBTXTLEN - n0 - 1) b0; n1 = n0 + strlen f in
       if MBTXTLEN \<le> n1 then store (MBTXTLEN - 1) NUL b1
       else let b2 = strncpy n1 '': '' 2 b1; n2 = n1 + 2 in
         if MBTXTLEN \<le> n2 then store (MBTXTLEN - 1) NUL b2
         else store (MBTXTLEN - 1) NUL (strncpy n2 d (MBTXTLEN - n2 - 1) b2))"
  by (simp add: compose_msg_def Let_def vsnprintf_def split_def not_less)



lemma b0_nth_short:
  assumes "j < MBTXTLEN" and "length r < MBTXTLEN"
  shows "cells (fst (vsnprintf 0 MBTXTLEN r (local_array MBTXTLEN junk))) ! j =
     (if j < length r then r ! j
      else if j = length r then NUL
      else cells (local_array MBTXTLEN junk) ! j)"
  using assms by (auto simp: nth_cells_vsnprintf MBTXTLEN_def min_def)

lemma b0_nth_long:
  assumes "j < MBTXTLEN" and "MBTXTLEN \<le> length r"
  shows "cells (fst (vsnprintf 0 MBTXTLEN r (local_array MBTXTLEN junk))) ! j =
     (if j < MBTXTLEN - 1 then r ! j else NUL)"
  using assms by (auto simp: nth_cells_vsnprintf MBTXTLEN_def min_def)

lemma compose_nth_A:
  assumes j: "j < MBTXTLEN" and A: "MBTXTLEN \<le> length r"
  shows "cells (compose_msg junk f r d) ! j =
     (if j < MBTXTLEN - 1 then (r @ cstr f @ '': '' @ cstr d @ replicate MBTXTLEN NUL) ! j else NUL)"
proof -
  have c: "compose_msg junk f r d =
      store (MBTXTLEN - 1) NUL (fst (vsnprintf 0 MBTXTLEN r (local_array MBTXTLEN junk)))"
    using A by (simp add: compose_msg_unfold Let_def)
  show ?thesis
  proof (cases "j < MBTXTLEN - 1")
    case True
    then have "j < length r" using A by simp
    then show ?thesis using True j A
      by (simp add: c nth_cells_store b0_nth_long nth_append)
  next
    case False
    then have "j = MBTXTLEN - 1" using j by simp
    then show ?thesis using j by (simp add: c nth_cells_store)
  qed
qed

lemma compose_nth_B:
  assumes j: "j < MBTXTLEN" and A: "length r < MBTXTLEN" and B: "MBTXTLEN \<le> length r + strlen f"
  shows "cells (compose_msg junk f r d) ! j =
     (if j < MBTXTLEN - 1 then (r @ cstr f @ '': '' @ cstr d @ replicate MBTXTLEN NUL) ! j else NUL)"
proof -
  have c: "compose_msg junk f r d =
      store (MBTXTLEN - 1) NUL (strncpy (length r) f (MBTXTLEN - length r - 1)
         (fst (vsnprintf 0 MBTXTLEN r (local_array MBTXTLEN junk))))"
    using A B by (simp add: compose_msg_unfold Let_def)
  show ?thesis
  proof (cases "j < MBTXTLEN - 1")
    case True
    show ?thesis
    proof (cases "j < length r")
      case True
      then show ?thesis using j A \<open>j < MBTXTLEN - 1\<close>
        by (simp add: c nth_cells_store nth_cells_strncpy b0_nth_short nth_append)
    next
      case False
      then have "j - length r < strlen f" "length r \<le> j" "j < length r + (MBTXTLEN - length r - 1)"
        "j < length r + strlen f"
        using B True by simp_all
      then show ?thesis using j True False
        by (simp add: c nth_cells_store nth_cells_strncpy nth_append strlen_def)
    qed
  next
    case False
    then have "j = MBTXTLEN - 1" using j by simp
    then show ?thesis using j by (simp add: c nth_cells_store)
  qed
qed

lemma compose_nth_C:
  assumes j: "j < MBTXTLEN" and B: "length r + strlen f < MBTXTLEN"
    and C: "MBTXTLEN \<le> length r + strlen f + 2"
  shows "cells (compose_msg junk f r d) ! j =
     (if j < MBTXTLEN - 1 then (r @ cstr f @ '': '' @ cstr d @ replicate MBTXTLEN NUL) ! j else NUL)"
proof -
  have A: "length r < MBTXTLEN" using B by simp
  have c: "compose_msg junk f r d =
      store (MBTXTLEN - 1) NUL (strncpy (length r + strlen f) '': '' 2
        (strncpy (length r) f (MBTXTLEN - length r - 1)
         (fst (vsnprintf 0 MBTXTLEN r (local_array MBTXTLEN junk)))))"
    using A B C by (simp add: compose_msg_unfold Let_def)
  show ?thesis
  proof (cases "j < MBTXTLEN - 1")
    case True
    consider "j < length r" | "length r \<le> j" "j < length r + strlen f"
      | "j = length r + strlen f" | "j = length r + strlen f + 1"
      using True C by linarith
    then show ?thesis
    proof cases
      case 1
      then show ?thesis using j A True
        by (simp add: c nth_cells_store nth_cells_strncpy b0_nth_short nth_append)
    next
      case 2
      then have "j - length r < strlen f" "j < length r + (MBTXTLEN - length r - 1)"
        using True by simp_all
      then show ?thesis using j True 2
        by (simp add: c nth_cells_store nth_cells_strncpy nth_append strlen_def)
    next
      case 3
      then show ?thesis using j True
        by (simp add: c nth_cells_store nth_cells_strncpy nth_append strlen_def)
    next
      case 4
      then show ?thesis using j True
        by (simp add: c nth_cells_store nth_cells_strncpy nth_append strlen_def)
    qed
  next
    case False
    then have "j = MBTXTLEN - 1" using j by simp
    then show ?thesis using j by (simp add: c nth_cells_store)
  qed
qed

lemma compose_nth_D:
  assumes j: "j < MBTXTLEN" and C: "length r + strlen f + 2 < MBTXTLEN"
  shows "cells (compose_msg junk f r d) ! j =
     (if j < MBTXTLEN - 1 then (r @ cstr f @ '': '' @ cstr d @ replicate MBTXTLEN NUL) ! j else NUL)"
proof -
  have A: "length r < MBTXTLEN" and B: "length r + strlen f < MBTXTLEN" using C by simp_all
  have c: "compose_msg junk f r d =
      store (MBTXTLEN - 1) NUL
       (strncpy (length r + strlen f + 2) d (MBTXTLEN - (length r + strlen f + 2) - 1)
        (strncpy (length r + strlen f) '': '' 2
        (strncpy (length r) f (MBTXTLEN - length r - 1)
         (fst (vsnprintf 0 MBTXTLEN r (local_array MBTXTLEN junk))))))"
    using A B C by (simp add: compose_msg_unfold Let_def)
  show ?thesis
  proof (cases "j < MBTXTLEN - 1")
    case True
    consider "j < length r" | "length r \<le> j" "j < length r + strlen f"
      | "j = length r + strlen f" | "j = length r + strlen f + 1"
      | "length r + strlen f + 2 \<le> j" "j < length r + strlen f + 2 + strlen d"
      | "length r + strlen f + 2 + strlen d \<le> j"
      by linarith
    then show ?thesis
    proof cases
      case 1
      then show ?thesis using j A True
        by (simp add: c nth_cells_store nth_cells_strncpy b0_nth_short nth_append)
    next
      case 2
      then have "j - length r < strlen f" "j < length r + (MBTXTLEN - length r - 1)"
        using True by simp_all
      then show ?thesis using j True 2
        by (simp add: c nth_cells_store nth_cells_strncpy nth_append strlen_def)
    next
      case 3
      then show ?thesis using j True
        by (simp add: c nth_cells_store nth_cells_strncpy nth_append strlen_def)
    next
      case 4
      then show ?thesis using j True
        by (simp add: c nth_cells_store nth_cells_strncpy nth_append strlen_def)
    next
      case 5
      then have "j - (length r + strlen f + 2) < strlen d"
        "j < length r + strlen f + 2 + (MBTXTLEN - (length r + strlen f + 2) - 1)"
        "\<not> j < length r" "\<not> j - length r < strlen f"
        "j - length r - strlen f = Suc (Suc (j - (length r + strlen f + 2)))"
        using True by simp_all
      then show ?thesis using j True 5
        by (simp add: c nth_cells_store nth_cells_strncpy nth_append strlen_def)
    next
      case 6
      then have "\<not> j - (length r + strlen f + 2) < strlen d"
        "j < length r + strlen f + 2 + (MBTXTLEN - (length r + strlen f + 2) - 1)"
        "j - length r - strlen f - 2 - strlen d < MBTXTLEN"
        "\<not> j < length r" "\<not> j - length r < strlen f"
        "j - length r - strlen f = Suc (Suc (j - (length r + strlen f + 2)))"
        using True j by simp_all
      then show ?thesis using j True 6
        by (simp add: c nth_cells_store nth_cells_strncpy nth_append strlen_def)
    qed
  next
    case False
    then have "j = MBTXTLEN - 1" using j by simp
    then show ?thesis using j by (simp add: c nth_cells_store)
  qed
qed

lemma compose_msg_nth:
  assumes j: "j < MBTXTLEN"
  shows "cells (compose_msg junk f r d) ! j =
     (if j < MBTXTLEN - 1 then (r @ cstr f @ '': '' @ cstr d @ replicate MBTXTLEN NUL) ! j else NUL)"
proof -
  consider "MBTXTLEN \<le> length r"
    | "length r < MBTXTLEN" "MBTXTLEN \<le> length r + strlen f"
    | "length r + strlen f < MBTXTLEN" "MBTXTLEN \<le> length r + strlen f + 2"
    | "length r + strlen f + 2 < MBTXTLEN"
    by linarith
  then show ?thesis
  proof cases
    case 1 then show ?thesis by (rule compose_nth_A [OF j])
  next
    case 2 then show ?thesis by (rule compose_nth_B [OF j])
  next
    case 3 then show ?thesis by (rule compose_nth_C [OF j])
  next
    case 4 then show ?thesis by (rule compose_nth_D [OF j])
  qed
qed

lemma length_cells_compose_msg: "length (cells (compose_msg junk f r d)) = MBTXTLEN"
  by (simp add: compose_msg_unfold Let_def)


lemma nth_take_snoc:
  "n \<le> length xs \<Longrightarrow> j \<le> n \<Longrightarrow> (take n xs @ [c]) ! j = (if j < n then xs ! j else c)"
  by (auto simp: nth_append)

lemma compose_msg_cells:
  "cells (compose_msg junk f r d) =
     take (MBTXTLEN - 1) (r @ cstr f @ '': '' @ cstr d @ replicate MBTXTLEN NUL) @ [NUL]"
proof (rule nth_equalityI)
  show "length (cells (compose_msg junk f r d)) =
        length (take (MBTXTLEN - 1) (r @ cstr f @ '': '' @ cstr d @ replicate MBTXTLEN NUL) @ [NUL])"
    by (simp add: length_cells_compose_msg MBTXTLEN_def)
next
  fix j assume "j < length (cells (compose_msg junk f r d))"
  then have j: "j < MBTXTLEN" by (simp add: length_cells_compose_msg)
  then have j': "j \<le> MBTXTLEN - 1" by simp
  have l: "MBTXTLEN - 1 \<le> length (r @ cstr f @ '': '' @ cstr d @ replicate MBTXTLEN NUL)"
    by simp
  show "cells (compose_msg junk f r d) ! j =
        (take (MBTXTLEN - 1) (r @ cstr f @ '': '' @ cstr d @ replicate MBTXTLEN NUL) @ [NUL]) ! j"
    by (simp only: compose_msg_nth [OF j] nth_take_snoc [OF l j'])
qed

lemma overrun_store_fits: "i < length (cells b) \<Longrightarrow> overrun (store i c b) = overrun b"
  by (simp add: store_def)

lemma compose_msg_overrun:
  "overrun (compose_msg junk f r d) =
     (if length r + strlen f = MBTXTLEN - 1 then [(MBTXTLEN, CHR '' '')] else [])"
proof -
  let ?b0 = "fst (vsnprintf 0 MBTXTLEN r (local_array MBTXTLEN junk))"
  have o0: "overrun ?b0 = []"
    by (simp add: overrun_vsnprintf_fits)
  consider "MBTXTLEN \<le> length r"
    | "length r < MBTXTLEN" "MBTXTLEN \<le> length r + strlen f"
    | "length r + strlen f = MBTXTLEN - 1"
    | "length r + strlen f = MBTXTLEN - 2"
    | "length r + strlen f + 2 < MBTXTLEN"
    by (simp add: MBTXTLEN_def) linarith
  then show ?thesis
  proof cases
    case 1
    then show ?thesis
      by (simp add: compose_msg_unfold Let_def overrun_store_fits overrun_vsnprintf_fits
          MBTXTLEN_def)
  next
    case 2
    then show ?thesis
      by (simp add: compose_msg_unfold Let_def overrun_store_fits overrun_strncpy_fits
          overrun_vsnprintf_fits MBTXTLEN_def)
  next
    case 3
    then have A: "length r < MBTXTLEN" by (simp add: MBTXTLEN_def)
    define b1 where "b1 = strncpy (length r) f (MBTXTLEN - length r - 1) ?b0"
    have o1: "overrun b1 = []"
      using A by (simp add: b1_def overrun_strncpy_fits overrun_vsnprintf_fits MBTXTLEN_def)
    have l1: "length (cells b1) = 1024" by (simp add: b1_def MBTXTLEN_def)
    have s: "overrun (strncpy 1023 '': '' 2 b1) = [(1024, CHR '' '')]"
      using l1 o1 by (simp add: strncpy_def store_def)
    have c: "compose_msg junk f r d = store 1023 NUL (strncpy 1023 '': '' 2 b1)"
      using 3 A by (simp add: compose_msg_unfold Let_def b1_def MBTXTLEN_def)
    show ?thesis using 3 l1
      by (simp only: c) (simp add: overrun_store_fits s MBTXTLEN_def)
  next
    case 4
    then have A: "length r < MBTXTLEN" by (simp add: MBTXTLEN_def)
    then show ?thesis using 4
      by (simp add: compose_msg_unfold Let_def overrun_store_fits overrun_strncpy_fits
          overrun_vsnprintf_fits MBTXTLEN_def)
  next
    case 5
    then show ?thesis
      by (simp add: compose_msg_unfold Let_def overrun_store_fits overrun_strncpy_fits
          overrun_vsnprintf_fits MBTXTLEN_def)
  qed
qed


subsection \<open>The two error-annotated emissions share one body\<close>

lemma mbfatal_winerror_msg_compose:
  "mbfatal_winerror_msg E f r = compose_msg (msg_junk E) f r (GetWinErrorString E (GetLastError E))"
  by (simp add: mbfatal_winerror_msg_def compose_msg_def Let_def)

lemma mbfatal_perror_msg_compose:
  "mbfatal_perror_msg E f r = compose_msg (msg_junk E) f r (strerror E (errno E))"
  by (simp add: mbfatal_perror_msg_def compose_msg_def Let_def)

lemma cells_store_list_fits:
  "i + length xs \<le> length (cells b) \<Longrightarrow>
   cells (store_list i xs b) = take i (cells b) @ xs @ drop (i + length xs) (cells b)"
proof (induction xs arbitrary: i b)
  case Nil
  show ?case by simp
next
  case (Cons c cs)
  have i: "i < length (cells b)" using Cons.prems by simp
  have "cells (store_list (Suc i) cs (store i c b)) =
        take (Suc i) (cells (store i c b)) @ cs @ drop (Suc i + length cs) (cells (store i c b))"
    using Cons.prems by (intro Cons.IH) simp
  also have "take (Suc i) (cells (store i c b)) = take i (cells b) @ [c]"
    using i by (simp add: store_def take_Suc_conv_app_nth)
  also have "drop (Suc i + length cs) (cells (store i c b)) = drop (i + length (c # cs)) (cells b)"
    using i by (simp add: store_def)
  finally show ?case by simp
qed

subsection \<open>C strings\<close>

lemma cstr_append_NUL: "cstr (xs @ NUL # ys) = cstr xs"
  by (induction xs) (simp_all add: cstr_def)

lemma cstr_no_NUL: "NUL \<notin> set xs \<Longrightarrow> cstr (xs @ ys) = xs @ cstr ys"
  by (induction xs) (auto simp: cstr_def)

lemma cstr_id: "NUL \<notin> set xs \<Longrightarrow> cstr xs = xs"
  using cstr_no_NUL [of xs "[]"] by (simp add: cstr_def)

lemma cstr_cstr: "cstr (cstr xs) = cstr xs"
  by (simp add: cstr_def)

lemma NUL_notin_cstr: "NUL \<notin> set (cstr xs)"
  by (auto simp: cstr_def dest: set_takeWhileD)

lemma cells_vsnprintf_long:
  assumes "0 < n" and "n \<le> length r"
  shows "cells (fst (vsnprintf 0 n r (local_array n junk))) = take (n - 1) r @ [NUL]"
    and "overrun (fst (vsnprintf 0 n r (local_array n junk))) = []"
  using assms
  by (simp_all add: vsnprintf_def cells_store_list_fits overrun_store_list_fits)

subsection \<open>The process-identifier prefix\<close>

lemma digit_not_NUL: "digit d \<noteq> NUL"
proof -
  have "digit d \<in> set ''0123456789''"
    unfolding digit_def by (rule nth_mem) simp
  then show ?thesis by auto
qed

lemma NUL_notin_dec_nat: "NUL \<notin> set (dec_nat n)"
proof (induction n rule: dec_nat.induct)
  case (1 n)
  show ?case
  proof (cases "n < 10")
    case True
    then show ?thesis using digit_not_NUL [of n] by (subst dec_nat.simps) auto
  next
    case False
    then show ?thesis using 1 digit_not_NUL [of "n mod 10"] by (subst dec_nat.simps) auto
  qed
qed

lemma length_dec_nat: "n < 10 ^ k \<Longrightarrow> 0 < k \<Longrightarrow> length (dec_nat n) \<le> k"
proof (induction n arbitrary: k rule: dec_nat.induct)
  case (1 n)
  show ?case
  proof (cases "n < 10")
    case True
    then show ?thesis using "1.prems" by (subst dec_nat.simps) simp
  next
    case False
    then obtain k' where k: "k = Suc k'" using "1.prems" by (cases k) auto
    have "k' \<noteq> 0" using False "1.prems" k by (cases k') auto
    moreover have "n div 10 < 10 ^ k'" using "1.prems" k
      by (simp add: less_mult_imp_div_less mult.commute)
    ultimately have "length (dec_nat (n div 10)) \<le> k'" using "1.IH" [OF False, of k'] by simp
    then show ?thesis using False k by (subst dec_nat.simps) simp
  qed
qed

lemma NUL_notin_fmt_pid: "NUL \<notin> set (fmt_pid p)"
  by (simp add: fmt_pid_def dec_int_def NUL_notin_dec_nat)

lemma length_fmt_pid: "length (fmt_pid p) \<le> 14"
proof -
  have lo: "- (2 ^ 31) \<le> sint p" and hi: "sint p < 2 ^ 31"
    using sint_ge [of p] sint_lt [of p] by simp_all
  have "nat (- sint p) < 10 ^ 10" "nat (sint p) < 10 ^ 10" using lo hi by simp_all
  then have "length (dec_nat (nat (- sint p))) \<le> 10" "length (dec_nat (nat (sint p))) \<le> 10"
    by (simp_all add: length_dec_nat)
  then show ?thesis by (simp add: fmt_pid_def dec_int_def)
qed

lemma cells_mbvs_msg:
  shows "\<exists>rest. cells (mbvs_msg E r) =
     fmt_pid (getpid E) @ take (MBTXTLEN - 1 - length (fmt_pid (getpid E))) r @ NUL # rest"
    and "overrun (mbvs_msg E r) = []"
proof -
  let ?P = "fmt_pid (getpid E)"
  define b0 where "b0 = local_array MBTXTLEN (msg_junk E)"
  define b1 where "b1 = store_list 0 (?P @ [NUL]) b0"
  have pl: "length ?P \<le> 14" by (rule length_fmt_pid)
  have l0: "length (cells b0) = 1024" by (simp add: b0_def MBTXTLEN_def)
  have c1: "cells b1 = ?P @ NUL # drop (Suc (length ?P)) (cells b0)"
    using pl l0 by (simp add: b1_def cells_store_list_fits)
  have l1: "length (cells b1) = 1024" by (simp add: b1_def l0)
  have o1: "overrun b1 = []" using pl l0 by (simp add: b1_def overrun_store_list_fits b0_def)
  have m: "mbvs_msg E r = store_list (length ?P) (take (MBTXTLEN - length ?P - 1) r @ [NUL]) b1"
    using pl by (simp add: mbvs_msg_def Let_def sprintf_def vsnprintf_def b1_def b0_def MBTXTLEN_def)
  have fit: "length ?P + length (take (MBTXTLEN - length ?P - 1) r @ [NUL]) \<le> length (cells b1)"
    using pl l1 by (simp add: MBTXTLEN_def)
  have "cells (mbvs_msg E r) =
      take (length ?P) (cells b1) @ (take (MBTXTLEN - length ?P - 1) r @ [NUL]) @
      drop (length ?P + length (take (MBTXTLEN - length ?P - 1) r @ [NUL])) (cells b1)"
    unfolding m by (rule cells_store_list_fits [OF fit])
  also have "take (length ?P) (cells b1) = ?P" by (simp add: c1)
  finally show "\<exists>rest. cells (mbvs_msg E r) =
     ?P @ take (MBTXTLEN - 1 - length ?P) r @ NUL # rest"
    by simp
  show "overrun (mbvs_msg E r) = []"
    unfolding m using overrun_store_list_fits [OF fit] o1 by simp
qed


subsection \<open>Strings read from a buffer\<close>

lemma terminated_within:
  assumes "m = xs @ NUL # rest"
  shows "strlen m \<le> length xs" and "m ! strlen m = NUL"
proof -
  have c: "cstr m = cstr xs" by (simp add: assms cstr_append_NUL)
  show le: "strlen m \<le> length xs"
    by (simp add: strlen_def c) (simp add: cstr_def length_takeWhile_le)
  have "length (takeWhile (\<lambda>c. c \<noteq> NUL) m) < length m"
    using le by (simp add: strlen_def cstr_def assms)
  then have "\<not> (m ! length (takeWhile (\<lambda>c. c \<noteq> NUL) m) \<noteq> NUL)"
    by (rule nth_length_takeWhile)
  then show "m ! strlen m = NUL" by (simp add: strlen_def cstr_def)
qed

subsection \<open>The message array of the dialog emissions\<close>

lemma cells_vsnprintf_prefix:
  assumes "0 < n"
  shows "\<exists>rest. cells (fst (vsnprintf 0 n r (local_array n junk))) = take (n - 1) r @ NUL # rest"
    and "overrun (fst (vsnprintf 0 n r (local_array n junk))) = []"
  using assms
  by (simp_all add: vsnprintf_def cells_store_list_fits overrun_store_list_fits)

lemma mbfatalerror_msg_prefix:
  "\<exists>rest. cells (mbfatalerror_msg E r) = take (MBTXTLEN - 1) r @ NUL # rest"
  using cells_vsnprintf_prefix(1) [of MBTXTLEN r "msg_junk E"]
  by (simp add: mbfatalerror_msg_def Let_def split_def MBTXTLEN_def)

lemma mbothererror_msg_prefix:
  "\<exists>rest. cells (mbothererror_msg E r) = take (MBTXTLEN - 1) r @ NUL # rest"
  using cells_vsnprintf_prefix(1) [of MBTXTLEN r "msg_junk E"]
  by (simp add: mbothererror_msg_def Let_def split_def MBTXTLEN_def)

lemma mbfatalerror_msg_long:
  assumes "MBTXTLEN \<le> length r"
  shows "cells (mbfatalerror_msg E r) = take (MBTXTLEN - 1) r @ [NUL]"
    and "overrun (mbfatalerror_msg E r) = []"
  using assms cells_vsnprintf_long [of MBTXTLEN r "msg_junk E"]
  by (simp_all add: mbfatalerror_msg_def Let_def split_def MBTXTLEN_def)

lemma mbothererror_msg_long:
  assumes "MBTXTLEN \<le> length r"
  shows "cells (mbothererror_msg E r) = take (MBTXTLEN - 1) r @ [NUL]"
    and "overrun (mbothererror_msg E r) = []"
  using assms cells_vsnprintf_long [of MBTXTLEN r "msg_junk E"]
  by (simp_all add: mbothererror_msg_def Let_def split_def MBTXTLEN_def)

lemma compose_msg_long:
  assumes "MBTXTLEN \<le> length r"
  shows "cells (compose_msg junk f r d) = take (MBTXTLEN - 1) r @ [NUL]"
    and "overrun (compose_msg junk f r d) = []"
  using assms by (simp_all add: compose_msg_cells compose_msg_overrun MBTXTLEN_def)

lemma mbfatal_winerror_msg_cells:
  "cells (mbfatal_winerror_msg E f r) =
     take (MBTXTLEN - 1)
       (r @ cstr f @ '': '' @ cstr (GetWinErrorString E (GetLastError E)) @ replicate MBTXTLEN NUL)
     @ [NUL]"
  by (simp only: mbfatal_winerror_msg_compose compose_msg_cells)

lemma mbfatal_perror_msg_cells:
  "cells (mbfatal_perror_msg E f r) =
     take (MBTXTLEN - 1)
       (r @ cstr f @ '': '' @ cstr (strerror E (errno E)) @ replicate MBTXTLEN NUL)
     @ [NUL]"
  by (simp only: mbfatal_perror_msg_compose compose_msg_cells)

lemma mbfatal_winerror_msg_overrun:
  "overrun (mbfatal_winerror_msg E f r) =
     (if length r + strlen f = MBTXTLEN - 1 then [(MBTXTLEN, CHR '' '')] else [])"
  by (simp only: mbfatal_winerror_msg_compose compose_msg_overrun)

lemma mbfatal_perror_msg_overrun:
  "overrun (mbfatal_perror_msg E f r) =
     (if length r + strlen f = MBTXTLEN - 1 then [(MBTXTLEN, CHR '' '')] else [])"
  by (simp only: mbfatal_perror_msg_compose compose_msg_overrun)

lemma rendered_msg_bounded:
  assumes "\<exists>rest. m = take (MBTXTLEN - 1) r @ NUL # rest"
  shows "strlen m \<le> 1023 \<and> m ! strlen m = NUL"
proof -
  obtain rest where m: "m = take (MBTXTLEN - 1) r @ NUL # rest" using assms by blast
  have "length (take (MBTXTLEN - 1) r) \<le> 1023" by (simp add: MBTXTLEN_def)
  then show ?thesis using terminated_within [OF m] by (simp add: MBTXTLEN_def)
qed


lemma strlen_LoadLibrary: "strlen ''LoadLibrary'' = 11"
  by (simp add: strlen_def cstr_def)

text \<open>
  Claim C1. The claim has the message body, the function name, the separator and the
  description appended into the 1024 bytes of \<open>msg\<close> with no store past the end of the array
  and with earlier segments kept and later ones dropped. The contents of the array are as
  the claim says (\<open>mbfatal_winerror_msg_cells\<close>, \<open>mbfatal_perror_msg_cells\<close>: the start of
  the concatenation, then a terminator). The stores are not: the separator is copied by
  \<open>strncpy(msg + size, ": ", 2)\<close> under the guard \<open>size < MBTXTLEN\<close> alone, so when body
  and function name together fill exactly \<open>MBTXTLEN - 1\<close> characters its second character
  is stored at \<open>msg[MBTXTLEN]\<close>, one past the end (\<open>mbfatal_winerror_msg_overrun\<close>,
  \<open>mbfatal_perror_msg_overrun\<close>). Here: a body of 1012 characters and the function name
  \<open>LoadLibrary\<close>, in any environment.
\<close>

theorem separator_stored_past_msg:
  "overrun (mbfatal_winerror_msg E ''LoadLibrary'' (replicate 1012 CHR ''a'')) = [(1024, CHR '' '')] \<and>
   overrun (mbfatal_perror_msg E ''LoadLibrary'' (replicate 1012 CHR ''a'')) = [(1024, CHR '' '')]"
  by (simp add: mbfatal_winerror_msg_compose mbfatal_perror_msg_compose compose_msg_overrun
      strlen_LoadLibrary MBTXTLEN_def)

lemma mbvs_msg_long:
  assumes "MBTXTLEN \<le> length r"
  shows "cells (mbvs_msg E r) =
           fmt_pid (getpid E) @ take (MBTXTLEN - 1 - length (fmt_pid (getpid E))) r @ [NUL]"
    and "overrun (mbvs_msg E r) = []"
proof -
  let ?P = "fmt_pid (getpid E)"
  obtain rest where c: "cells (mbvs_msg E r) = ?P @ take (MBTXTLEN - 1 - length ?P) r @ NUL # rest"
    using cells_mbvs_msg(1) by blast
  have "length (cells (mbvs_msg E r)) = MBTXTLEN"
    by (simp add: mbvs_msg_def Let_def split_def sprintf_def)
  moreover have "length ?P \<le> 14" by (rule length_fmt_pid)
  ultimately have "rest = []"
    using assms unfolding c by (simp add: MBTXTLEN_def)
  then show "cells (mbvs_msg E r) = ?P @ take (MBTXTLEN - 1 - length ?P) r @ [NUL]"
    using c by simp
  show "overrun (mbvs_msg E r) = []" by (rule cells_mbvs_msg(2))
qed

text \<open>
  Claim C2, as amended. When the rendering is at least as long as the capacity of \<open>msg\<close>,
  the rendering step of \<open>mbfatalerror\<close> and of \<open>mbothererror\<close> leaves in the array the
  first \<open>MBTXTLEN - 1\<close> characters of the rendering followed by the terminator, at index
  \<open>MBTXTLEN - 1\<close>, and stores nothing past the end. The result is a function of the
  rendering alone: the indeterminate initial contents of the array do not show. The
  string in the array is at most \<open>MBTXTLEN - 1\<close> characters long, and exactly that long,
  being the prefix kept, when no terminator character is among the characters kept. In
  \<open>mbvs\<close> the rendering step fills what the process-identifier prefix leaves of the array,
  in the same way.
\<close>

theorem rendering_truncated_at_capacity:
  assumes "MBTXTLEN \<le> length rendered"
  shows "cells (mbfatalerror_msg E rendered) = take (MBTXTLEN - 1) rendered @ [NUL] \<and>
         overrun (mbfatalerror_msg E rendered) = [] \<and>
         cells (mbothererror_msg E rendered) = take (MBTXTLEN - 1) rendered @ [NUL] \<and>
         overrun (mbothererror_msg E rendered) = [] \<and>
         cells (mbvs_msg E rendered) =
           fmt_pid (getpid E) @ take (MBTXTLEN - 1 - length (fmt_pid (getpid E))) rendered @ [NUL] \<and>
         overrun (mbvs_msg E rendered) = [] \<and>
         strlen (cells (mbfatalerror_msg E rendered)) \<le> MBTXTLEN - 1 \<and>
         strlen (cells (mbothererror_msg E rendered)) \<le> MBTXTLEN - 1 \<and>
         (NUL \<notin> set (take (MBTXTLEN - 1) rendered) \<longrightarrow>
            cstr (cells (mbfatalerror_msg E rendered)) = take (MBTXTLEN - 1) rendered \<and>
            strlen (cells (mbfatalerror_msg E rendered)) = MBTXTLEN - 1 \<and>
            cstr (cells (mbothererror_msg E rendered)) = take (MBTXTLEN - 1) rendered \<and>
            strlen (cells (mbothererror_msg E rendered)) = MBTXTLEN - 1)"
proof -
  have "NUL \<notin> set (take (MBTXTLEN - 1) rendered) \<Longrightarrow>
        cstr (take (MBTXTLEN - 1) rendered @ [NUL]) = take (MBTXTLEN - 1) rendered"
    by (simp add: cstr_append_NUL cstr_id)
  moreover have "strlen (cells (mbfatalerror_msg E rendered)) \<le> MBTXTLEN - 1"
    using rendered_msg_bounded [OF mbfatalerror_msg_prefix, of E rendered]
    by (simp add: MBTXTLEN_def)
  moreover have "strlen (cells (mbothererror_msg E rendered)) \<le> MBTXTLEN - 1"
    using rendered_msg_bounded [OF mbothererror_msg_prefix, of E rendered]
    by (simp add: MBTXTLEN_def)
  ultimately show ?thesis using assms
    by (simp add: mbfatalerror_msg_long mbothererror_msg_long mbvs_msg_long strlen_def)
qed

theorem rendering_truncated_at_capacity_witness:
  "cells (mbfatalerror_msg sample_env (replicate 1024 CHR ''m'')) = replicate 1023 CHR ''m'' @ [NUL] \<and>
   overrun (mbfatalerror_msg sample_env (replicate 1024 CHR ''m'')) = [] \<and>
   cells (mbothererror_msg sample_env (replicate 1024 CHR ''m'')) = replicate 1023 CHR ''m'' @ [NUL] \<and>
   overrun (mbothererror_msg sample_env (replicate 1024 CHR ''m'')) = [] \<and>
   cstr (cells (mbfatalerror_msg sample_env (replicate 1024 CHR ''m''))) = replicate 1023 CHR ''m'' \<and>
   strlen (cells (mbfatalerror_msg sample_env (replicate 1024 CHR ''m''))) = 1023 \<and>
   cstr (cells (mbothererror_msg sample_env (replicate 1024 CHR ''m''))) = replicate 1023 CHR ''m'' \<and>
   strlen (cells (mbothererror_msg sample_env (replicate 1024 CHR ''m''))) = 1023"
  using rendering_truncated_at_capacity [of "replicate 1024 CHR ''m''" sample_env]
  by (simp add: MBTXTLEN_def cstr_append_NUL cstr_id strlen_def)

text \<open>
  The claim as stated has the string length equal to the capacity minus one for every
  format and arguments. The format \<open>"%c%s"\<close> with the character 0 and a string of 2000
  characters renders to 2001 characters, the first of them the terminator character: the
  array holds it and the 1022 characters after it, and the string in the array is empty.
\<close>

theorem embedded_terminator_shortens_string:
  "MBTXTLEN \<le> length (NUL # replicate 2000 CHR ''m'') \<and>
   strlen (cells (mbfatalerror_msg sample_env (NUL # replicate 2000 CHR ''m''))) = 0 \<and>
   strlen (cells (mbothererror_msg sample_env (NUL # replicate 2000 CHR ''m''))) = 0 \<and>
   MBTXTLEN - 1 = 1023"
proof -
  have l: "MBTXTLEN \<le> length (NUL # replicate 2000 CHR ''m'')" by (simp add: MBTXTLEN_def)
  have "cells (mbfatalerror_msg sample_env (NUL # replicate 2000 CHR ''m'')) =
        take (MBTXTLEN - 1) (NUL # replicate 2000 CHR ''m'') @ [NUL]"
    by (rule mbfatalerror_msg_long(1) [OF l])
  moreover have "cells (mbothererror_msg sample_env (NUL # replicate 2000 CHR ''m'')) =
        take (MBTXTLEN - 1) (NUL # replicate 2000 CHR ''m'') @ [NUL]"
    by (rule mbothererror_msg_long(1) [OF l])
  ultimately show ?thesis
    by (simp add: MBTXTLEN_def strlen_def cstr_def take_Cons')
qed

text \<open>
  Claim C5. When the message body alone renders to at least \<open>MBTXTLEN\<close> characters (2000,
  say), the array of \<open>mbfatal_winerror\<close> and of \<open>mbfatal_perror\<close> holds the first
  \<open>MBTXTLEN - 1\<close> characters of the body and the terminator, nothing is stored past its end,
  and the function name, the separator and the error description do not appear: the
  emission is the one \<open>mbfatalerror\<close> makes for the body alone.
\<close>

theorem long_body_keeps_only_body:
  assumes "MBTXTLEN \<le> length rendered"
  shows "cells (mbfatal_winerror_msg E funcname rendered) = take (MBTXTLEN - 1) rendered @ [NUL] \<and>
         overrun (mbfatal_winerror_msg E funcname rendered) = [] \<and>
         cells (mbfatal_perror_msg E funcname rendered) = take (MBTXTLEN - 1) rendered @ [NUL] \<and>
         overrun (mbfatal_perror_msg E funcname rendered) = [] \<and>
         mbfatal_winerror E funcname rendered w = mbfatalerror E rendered w \<and>
         mbfatal_perror E funcname rendered w = mbfatalerror E rendered w"
  using assms
  by (simp add: mbfatal_winerror_msg_compose mbfatal_perror_msg_compose compose_msg_long
      mbfatal_winerror_def mbfatal_perror_def mbfatalerror_def mbfatalerror_msg_long)

theorem long_body_keeps_only_body_witness:
  "cells (mbfatal_winerror_msg sample_env ''CreateFile'' (replicate 2000 CHR ''m''))
     = replicate 1023 CHR ''m'' @ [NUL] \<and>
   overrun (mbfatal_winerror_msg sample_env ''CreateFile'' (replicate 2000 CHR ''m'')) = [] \<and>
   cells (mbfatal_perror_msg sample_env ''fopen'' (replicate 2000 CHR ''m''))
     = replicate 1023 CHR ''m'' @ [NUL] \<and>
   overrun (mbfatal_perror_msg sample_env ''fopen'' (replicate 2000 CHR ''m'')) = [] \<and>
   mbfatal_winerror sample_env ''CreateFile'' (replicate 2000 CHR ''m'') no_output
     = mbfatalerror sample_env (replicate 2000 CHR ''m'') no_output \<and>
   mbfatal_perror sample_env ''fopen'' (replicate 2000 CHR ''m'') no_output
     = mbfatalerror sample_env (replicate 2000 CHR ''m'') no_output"
  using long_body_keeps_only_body [of "replicate 2000 CHR ''m''" sample_env "''CreateFile''" no_output]
    long_body_keeps_only_body [of "replicate 2000 CHR ''m''" sample_env "''fopen''" no_output]
  by (simp add: MBTXTLEN_def)

subsection \<open>Debug output\<close>

lemma stderr_vprintf_to_stderr:
  "stderr (vprintf_to_stderr cfg E r w) =
   stderr w @ stderr (vprintf_to_stderr cfg E r (w\<lparr>stderr := []\<rparr>))"
  by (simp add: vprintf_to_stderr_def Let_def split_def)

lemma dec_int_4242: "dec_int 4242 = ''4242''"
  by (simp add: dec_int_def dec_nat.simps digit_def)

text \<open>
  Claim C6. What \<open>pyi_global_printf\<close> appends to the standard error stream is an opening
  bracket, the process identifier in decimal, a closing bracket and one space, followed
  by exactly what \<open>vprintf_to_stderr\<close> writes for the message. The string \<open>mbvs\<close> hands to
  the debugger is the same prefix followed by the rendered message, cut to the room left
  in \<open>msg\<close>.
\<close>

theorem debug_emission_begins_with_pid:
  "stderr (pyi_global_printf cfg E rendered w) =
     stderr w @ ''['' @ dec_int (sint (getpid E)) @ ''] '' @
     stderr (vprintf_to_stderr cfg E rendered (w\<lparr>stderr := []\<rparr>)) \<and>
   debugger (mbvs E rendered w) =
     debugger w @
     [''['' @ dec_int (sint (getpid E)) @ ''] '' @
      cstr (take (MBTXTLEN - 1 - length (fmt_pid (getpid E))) rendered)]"
proof
  have "stderr (pyi_global_printf cfg E rendered w) =
      stderr (vprintf_to_stderr cfg E rendered (w\<lparr>stderr := stderr w @ fmt_pid (getpid E)\<rparr>))"
    by (simp add: pyi_global_printf_def Let_def)
  also have "\<dots> = (stderr w @ fmt_pid (getpid E)) @
      stderr (vprintf_to_stderr cfg E rendered (w\<lparr>stderr := []\<rparr>))"
    by (subst stderr_vprintf_to_stderr) simp
  finally show "stderr (pyi_global_printf cfg E rendered w) =
     stderr w @ ''['' @ dec_int (sint (getpid E)) @ ''] '' @
     stderr (vprintf_to_stderr cfg E rendered (w\<lparr>stderr := []\<rparr>))"
    by (simp add: fmt_pid_def)
next
  obtain rest where c: "cells (mbvs_msg E rendered) =
     fmt_pid (getpid E) @ take (MBTXTLEN - 1 - length (fmt_pid (getpid E))) rendered @ NUL # rest"
    using cells_mbvs_msg(1) by blast
  have "cstr (cells (mbvs_msg E rendered)) =
     fmt_pid (getpid E) @ cstr (take (MBTXTLEN - 1 - length (fmt_pid (getpid E))) rendered)"
    unfolding c by (simp add: cstr_no_NUL [OF NUL_notin_fmt_pid] cstr_append_NUL)
  then show "debugger (mbvs E rendered w) =
     debugger w @
     [''['' @ dec_int (sint (getpid E)) @ ''] '' @
      cstr (take (MBTXTLEN - 1 - length (fmt_pid (getpid E))) rendered)]"
    by (simp add: mbvs_def fmt_pid_def)
qed

theorem debug_emission_begins_with_pid_witness:
  "stderr (pyi_global_printf \<lparr>win32 = False, apple = False, windowed = False, launch_debug = True\<rparr>
      sample_env ''LOADER: hello'' no_output) = ''[4242] LOADER: hello'' \<and>
   debugger (mbvs sample_env ''LOADER: hello'' no_output) = [''[4242] LOADER: hello'']"
  using debug_emission_begins_with_pid
    [of "\<lparr>win32 = False, apple = False, windowed = False, launch_debug = True\<rparr>"
        sample_env "''LOADER: hello''" no_output]
  by (simp add: sample_env_def no_output_def dec_int_4242 fmt_pid_def vprintf_to_stderr_def
      MBTXTLEN_def cstr_def)

subsection \<open>Dialogs\<close>

lemma show_message_box_fallback:
  assumes "\<not> fst (from_utf8 E (take MBTXTLEN (wmsg_junk E @ replicate MBTXTLEN 0)) msg MBTXTLEN)"
  shows "show_message_box E msg caption uType w =
           w\<lparr>boxes := boxes w @ [MessageBoxA (cstr msg) (cstr caption) (MB_OK OR uType)]\<rparr>"
  using assms by (simp add: show_message_box_def Let_def split_def)

lemma show_message_box_wide:
  assumes "from_utf8 E (take MBTXTLEN (wmsg_junk E @ replicate MBTXTLEN 0)) msg MBTXTLEN = (True, wmsg)"
  shows "show_message_box E msg caption uType w =
           w\<lparr>boxes := boxes w @
             [MessageBoxW (wcstr wmsg)
                (wcstr (snd (from_utf8 E (replicate MBTXTLEN 0) caption MBTXTLEN)))
                (MB_OK OR uType)]\<rparr>"
  using assms by (simp add: show_message_box_def Let_def split_def)

text \<open>
  Claim C7, as amended. When the conversion of the message to wide characters fails,
  \<open>show_message_box\<close> shows exactly one dialog, through the byte-string call
  \<open>MessageBoxA\<close>: its text is the C string of the unconverted message, its caption and
  icon are the ones passed in. The text is empty only when the message is. The message
  is never dropped.
\<close>

theorem raw_bytes_shown_when_conversion_fails:
  assumes "\<not> fst (from_utf8 E (take MBTXTLEN (wmsg_junk E @ replicate MBTXTLEN 0)) msg MBTXTLEN)"
  shows "show_message_box E msg caption uType w =
           w\<lparr>boxes := boxes w @ [MessageBoxA (cstr msg) (cstr caption) (MB_OK OR uType)]\<rparr> \<and>
         (cstr msg = [] \<longleftrightarrow> msg = [] \<or> hd msg = NUL)"
proof -
  have "cstr msg = [] \<longleftrightarrow> msg = [] \<or> hd msg = NUL"
    by (cases msg) (simp_all add: cstr_def)
  then show ?thesis using show_message_box_fallback [OF assms] by simp
qed

theorem raw_bytes_shown_when_conversion_fails_witness:
  "show_message_box sample_env (''caf'' @ [CHR 0xC3, NUL]) ''Fatal error detected''
      MB_ICONEXCLAMATION no_output =
     no_output\<lparr>boxes := [MessageBoxA (''caf'' @ [CHR 0xC3]) ''Fatal error detected'' 0x30]\<rparr>"
  using raw_bytes_shown_when_conversion_fails
    [of sample_env "''caf'' @ [CHR 0xC3, NUL]" "''Fatal error detected''" MB_ICONEXCLAMATION no_output]
  by (simp add: sample_env_def failing_def no_output_def cstr_def MB_OK_def MB_ICONEXCLAMATION_def)

text \<open>
  The claim as stated also has the fallback dialog carry an indication that the text is
  not reliably readable. It carries none: for a message ending in a broken UTF-8 sequence
  whose conversion fails, the one dialog shown holds the bytes of the message, the caption
  and the icon exactly as passed in, and nothing else.
\<close>

theorem fallback_dialog_adds_nothing:
  "boxes (show_message_box sample_env (''caf'' @ [CHR 0xC3, NUL]) ''Fatal error detected''
      MB_ICONEXCLAMATION no_output) =
     [MessageBoxA (''caf'' @ [CHR 0xC3]) ''Fatal error detected'' MB_ICONEXCLAMATION]"
  by (simp add: show_message_box_def sample_env_def failing_def no_output_def cstr_def
      MB_OK_def MB_ICONEXCLAMATION_def Let_def)

text \<open>
  Claim C9, as amended. When the conversion of the message succeeds and the conversion of
  the caption fails, the wide dialog is shown all the same, with the converted message;
  its caption is what the caption array holds after the failed call. The array was filled
  with zeros before the call, so it is never uninitialised, and the caption shown is empty
  when the failed conversion stored nothing in it.
\<close>

theorem caption_failure_keeps_dialog:
  assumes "from_utf8 E (take MBTXTLEN (wmsg_junk E @ replicate MBTXTLEN 0)) msg MBTXTLEN = (True, wmsg)"
    and "from_utf8 E (replicate MBTXTLEN 0) caption MBTXTLEN = (False, wcaption)"
  shows "show_message_box E msg caption uType w =
           w\<lparr>boxes := boxes w @ [MessageBoxW (wcstr wmsg) (wcstr wcaption) (MB_OK OR uType)]\<rparr> \<and>
         (wcaption = replicate MBTXTLEN 0 \<longrightarrow>
            show_message_box E msg caption uType w =
              w\<lparr>boxes := boxes w @ [MessageBoxW (wcstr wmsg) [] (MB_OK OR uType)]\<rparr>)"
proof -
  have "wcstr (replicate MBTXTLEN 0) = []"
    by (simp add: wcstr_def MBTXTLEN_def)
  then show ?thesis using show_message_box_wide [OF assms(1)] assms(2) by auto
qed

theorem caption_failure_keeps_dialog_witness:
  "show_message_box
     (sample_env\<lparr>from_utf8 :=
        (\<lambda>dst src n. if cstr src = ''Fatal error detected'' then failing dst src n
                      else widening dst src n)\<rparr>)
     (''No''  @ [NUL]) ''Fatal error detected'' MB_ICONEXCLAMATION no_output =
   no_output\<lparr>boxes := [MessageBoxW [0x4E, 0x6F] [] 0x30]\<rparr>"
proof -
  let ?E = "sample_env\<lparr>from_utf8 :=
        (\<lambda>dst src n. if cstr src = ''Fatal error detected'' then failing dst src n
                      else widening dst src n)\<rparr>"
  have m: "from_utf8 ?E (take MBTXTLEN (wmsg_junk ?E @ replicate MBTXTLEN 0)) (''No''  @ [NUL]) MBTXTLEN
      = (True, [0x4E, 0x6F, 0] @ replicate 1021 0)"
    by (simp add: sample_env_def widening_def cstr_def strlen_def MBTXTLEN_def)
  have c: "from_utf8 ?E (replicate MBTXTLEN 0) ''Fatal error detected'' MBTXTLEN
      = (False, replicate MBTXTLEN 0)"
    by (simp add: sample_env_def failing_def cstr_def)
  show ?thesis
    using caption_failure_keeps_dialog [OF m c, of MB_ICONEXCLAMATION no_output]
    by (simp add: no_output_def wcstr_def MB_OK_def MB_ICONEXCLAMATION_def)
qed

text \<open>
  The claim as stated has the caption empty whenever the caption conversion fails. The
  function ignores what the second call returns and shows what the array holds: with a
  conversion that stores one wide character \<open>X\<close> in its destination before it fails on
  the caption, the dialog is shown with the caption \<open>X\<close>.
\<close>

theorem failed_caption_conversion_shows_its_leftover:
  "boxes (show_message_box
     (sample_env\<lparr>from_utf8 :=
        (\<lambda>dst src n. if cstr src = ''Fatal error detected'' then (False, 0x58 # tl dst)
                      else widening dst src n)\<rparr>)
     (''No'' @ [NUL]) ''Fatal error detected'' MB_ICONEXCLAMATION no_output) =
   [MessageBoxW [0x4E, 0x6F] [0x58] MB_ICONEXCLAMATION]"
  by (simp add: show_message_box_def Let_def sample_env_def no_output_def widening_def
      cstr_def strlen_def wcstr_def MBTXTLEN_def MB_OK_def MB_ICONEXCLAMATION_def)

subsection \<open>The standard error stream\<close>

lemma cstr_vprintf_utf8_buffer:
  "cstr (cells (vprintf_utf8_buffer E r)) = cstr (take (VPRINTF_TO_STDERR_BUFSIZE - 1) r)"
proof -
  have "0 < VPRINTF_TO_STDERR_BUFSIZE" by (simp add: VPRINTF_TO_STDERR_BUFSIZE_def MBTXTLEN_def)
  then obtain rest where "cells (vprintf_utf8_buffer E r) =
      take (VPRINTF_TO_STDERR_BUFSIZE - 1) r @ NUL # rest"
    unfolding vprintf_utf8_buffer_def using cells_vsnprintf_prefix(1) by blast
  then show ?thesis by (simp add: cstr_append_NUL)
qed

text \<open>
  Claim C8. \<open>vprintf_to_stderr\<close> always appends to the standard error stream and touches
  no other sink. On Windows it appends the re-encoded text when the conversion succeeds
  and the raw text of the UTF-8 buffer (the rendering, cut to the buffer) when it fails;
  elsewhere it appends the rendering. It has no error result: its value is the new state
  of the sinks.
\<close>

theorem stderr_always_written:
  "(win32 cfg \<longrightarrow>
      stderr (vprintf_to_stderr cfg E rendered w) =
        stderr w @
        (case utf8_to_mbs E (cells (local_array VPRINTF_TO_STDERR_BUFSIZE (mbcs_junk E)))
                (cells (vprintf_utf8_buffer E rendered)) VPRINTF_TO_STDERR_BUFSIZE of
           (True, mbcs_buffer) \<Rightarrow> cstr mbcs_buffer
         | (False, _) \<Rightarrow> cstr (take (VPRINTF_TO_STDERR_BUFSIZE - 1) rendered))) \<and>
   (\<not> win32 cfg \<longrightarrow> stderr (vprintf_to_stderr cfg E rendered w) = stderr w @ rendered) \<and>
   boxes (vprintf_to_stderr cfg E rendered w) = boxes w \<and>
   debugger (vprintf_to_stderr cfg E rendered w) = debugger w \<and>
   syslog (vprintf_to_stderr cfg E rendered w) = syslog w"
  by (simp add: vprintf_to_stderr_def Let_def cstr_vprintf_utf8_buffer split: prod.splits bool.splits)

theorem stderr_always_written_witness:
  "stderr (vprintf_to_stderr \<lparr>win32 = True, apple = False, windowed = False, launch_debug = False\<rparr>
      sample_env (''caf'' @ [CHR 0xC3, CHR 0xA9]) no_output) = ''caf'' @ [CHR 0xC3, CHR 0xA9] \<and>
   stderr (vprintf_to_stderr \<lparr>win32 = True, apple = False, windowed = False, launch_debug = False\<rparr>
      (sample_env\<lparr>utf8_to_mbs := (\<lambda>dst src n. (True, ''caf?'' @ [NUL]))\<rparr>)
      (''caf'' @ [CHR 0xC3, CHR 0xA9]) no_output) = ''caf?'' \<and>
   stderr (vprintf_to_stderr \<lparr>win32 = False, apple = False, windowed = False, launch_debug = False\<rparr>
      sample_env (''caf'' @ [CHR 0xC3, CHR 0xA9]) no_output) = ''caf'' @ [CHR 0xC3, CHR 0xA9]"
  using stderr_always_written
    [of "\<lparr>win32 = True, apple = False, windowed = False, launch_debug = False\<rparr>"
        sample_env "''caf'' @ [CHR 0xC3, CHR 0xA9]" no_output]
   stderr_always_written
    [of "\<lparr>win32 = True, apple = False, windowed = False, launch_debug = False\<rparr>"
        "sample_env\<lparr>utf8_to_mbs := (\<lambda>dst src n. (True, ''caf?'' @ [NUL]))\<rparr>"
        "''caf'' @ [CHR 0xC3, CHR 0xA9]" no_output]
   stderr_always_written
    [of "\<lparr>win32 = False, apple = False, windowed = False, launch_debug = False\<rparr>"
        sample_env "''caf'' @ [CHR 0xC3, CHR 0xA9]" no_output]
  by (simp add: sample_env_def no_output_def failing_def VPRINTF_TO_STDERR_BUFSIZE_def
      MBTXTLEN_def cstr_def)

subsection \<open>Capacities\<close>







end
